theory Spec2Isabelle
  imports Complex_Main "HOL-Library.AList"
begin

section \<open>Statistic time series (class StatisticValue)\<close>

text \<open>
  Simulated time and the monitored quantities are Python numbers; they are modelled as
  reals. The attribute \<open>_history\<close> is a Python dict: an association list in insertion
  order, where storing under an existing key replaces the value in place and storing under
  a new key appends (\<open>AList.update\<close>). The statistic reads \<open>self.env.now\<close> at every
  mutation; the model passes that reading as the argument \<open>t\<close>. The private attributes
  \<open>_value\<close>, \<open>_max_value\<close> and \<open>_history\<close> are the fields \<open>value'\<close>, \<open>max_value'\<close> and
  \<open>history'\<close>; the property \<open>value\<close> returns \<open>value'\<close> as it is.
\<close>

type_synonym time = real

record statistic_value =
  value' :: real
  max_value' :: real
  history' :: "(time \<times> real) list"

definition StatisticValue_init :: statistic_value where
  "StatisticValue_init = \<lparr>value' = 0, max_value' = 0, history' = []\<rparr>"

definition max_value :: "statistic_value \<Rightarrow> real" where
  "max_value s = max_value' s"

definition history :: "statistic_value \<Rightarrow> (time \<times> real) list" where
  "history s = sort_key fst (history' s)"

definition iadd :: "time \<Rightarrow> real \<Rightarrow> statistic_value \<Rightarrow> statistic_value" where
  "iadd t other s =
     (let s1 = s\<lparr>value' := value' s + other\<rparr>;
          s2 = s1\<lparr>history' := AList.update t (value' s1) (history' s1)\<rparr>
      in s2\<lparr>max_value' := max (value' s2) (max_value s2)\<rparr>)"

definition isub :: "time \<Rightarrow> real \<Rightarrow> statistic_value \<Rightarrow> statistic_value" where
  "isub t other s =
     (let s1 = s\<lparr>value' := value' s - other\<rparr>
      in s1\<lparr>history' := AList.update t (value' s1) (history' s1)\<rparr>)"

text \<open>
  A run of a statistic: a list of mutations, each with the clock reading at which it
  happens. \<open>run\<close> lists every state the statistic passes through, the starting state first.
\<close>

datatype mutation = Iadd real | Isub real

fun mutate :: "time \<times> mutation \<Rightarrow> statistic_value \<Rightarrow> statistic_value" where
  "mutate (t, Iadd d) s = iadd t d s"
| "mutate (t, Isub d) s = isub t d s"

fun run :: "(time \<times> mutation) list \<Rightarrow> statistic_value \<Rightarrow> statistic_value list" where
  "run [] s = [s]"
| "run (m # ms) s = s # run ms (mutate m s)"

text \<open>The values that are ever present in the history at some point of a run.\<close>

definition ever_present :: "statistic_value list \<Rightarrow> real set" where
  "ever_present ss = (\<Union>s \<in> set ss. snd ` set (history s))"

text \<open>A run whose decrements all have a non-negative delta.\<close>

fun nonneg_decrement :: "time \<times> mutation \<Rightarrow> bool" where
  "nonneg_decrement (t, Iadd d) = True"
| "nonneg_decrement (t, Isub d) = (0 \<le> d)"

text \<open>
  What the mutations write, stated without the class: the \<open>i\<close>-th mutation writes, at its
  clock reading, the starting value plus the signed deltas up to and including its own.
\<close>

fun signed :: "mutation \<Rightarrow> real" where
  "signed (Iadd d) = d"
| "signed (Isub d) = - d"

fun writes :: "real \<Rightarrow> (time \<times> mutation) list \<Rightarrow> (time \<times> real) list" where
  "writes v [] = []"
| "writes v ((t, m) # ms) = (t, v + signed m) # writes (v + signed m) ms"

definition last_write :: "time \<Rightarrow> (time \<times> real) list \<Rightarrow> real option" where
  "last_write t ws =
     (let at_t = filter (\<lambda>w. fst w = t) ws
      in if at_t = [] then None else Some (snd (last at_t)))"


text \<open>Invariant of a statistic: neither the value nor any stored value exceeds the maximum.\<close>

definition bounded_by_max :: "statistic_value \<Rightarrow> bool" where
  "bounded_by_max s \<longleftrightarrow>
     value' s \<le> max_value' s \<and> list_all (\<lambda>e. snd e \<le> max_value' s) (history' s)"


section \<open>Patients (class Patient)\<close>

datatype error = ValueError string | IndexError | ScheduleError | ResourceInvariantError

record visit =
  type' :: string
  waiting_time :: real
  service_time :: real

record patient =
  index :: int
  enter :: real
  exit :: "real option"
  visits :: "visit list"

text \<open>
  \<open>Patient.all_created\<close> is an attribute of the class, not of an instance: one list for the
  whole Python process. The constructor takes that list and returns it extended, together
  with the new object.
\<close>

definition Patient_init :: "int \<Rightarrow> real \<Rightarrow> patient list \<Rightarrow> patient \<times> patient list" where
  "Patient_init i e created =
     (let self = \<lparr>index = i, enter = e, exit = None, visits = []\<rparr>
      in (self, created @ [self]))"

text \<open>
  \<open>add_visit\<close> mutates the patient in place and may raise: the model returns the outcome
  together with the patient as it is afterwards.
\<close>

definition add_visit :: "string \<Rightarrow> real \<Rightarrow> real \<Rightarrow> patient \<Rightarrow> (error + unit) \<times> patient" where
  "add_visit ty w s p =
     (if ty \<notin> {''therapist'', ''doctor''} then (Inl (ValueError ty), p)
      else
        let w' = (if w < 1 then 0 else w);
            s' = (if s < 1 then 0 else s)
        in (Inr (), p\<lparr>visits := visits p @ [\<lparr>type' = ty, waiting_time = w', service_time = s'\<rparr>]\<rparr>))"



section \<open>The random number generator (random.Random)\<close>

text \<open>
  The generator behind \<open>self.r\<close> is the standard library's Mersenne Twister. Its state is
  abstracted to the stream of 32-bit outputs it will still produce and the position in that
  stream; the stream seeded by 42 is a parameter of the constructor of the clinic. The
  methods are those of the standard library: \<open>random()\<close> builds a 53-bit fraction from two
  outputs, \<open>getrandbits(k)\<close> takes the top bits of an output, \<open>randint\<close> rejects draws
  outside the range, \<open>normalvariate\<close> is the ratio-of-uniforms loop. Both loops may in
  principle run forever; not returning is the value \<open>None\<close>. Floating-point rounding is not
  modelled.
\<close>

record rng =
  outputs :: "nat \<Rightarrow> nat"
  pos :: nat

definition genrand_uint32 :: "rng \<Rightarrow> nat \<times> rng" where
  "genrand_uint32 g = (outputs g (pos g) mod 2 ^ 32, g\<lparr>pos := Suc (pos g)\<rparr>)"

definition random_float :: "rng \<Rightarrow> real \<times> rng" where
  "random_float g =
     (let (a, g1) = genrand_uint32 g;
          (b, g2) = genrand_uint32 g1
      in ((real (a div 32) * 67108864 + real (b div 64)) / 9007199254740992, g2))"

function getrandbits :: "nat \<Rightarrow> rng \<Rightarrow> nat \<times> rng" where
  "getrandbits k g =
     (if k = 0 then (0, g)
      else
        let (w, g1) = genrand_uint32 g
        in if k \<le> 32 then (w div 2 ^ (32 - k), g1)
           else let (hi, g2) = getrandbits (k - 32) g1 in (w + 2 ^ 32 * hi, g2))"
  by pat_completeness auto
termination
  by (relation "measure fst") auto

declare getrandbits.simps [simp del]

fun bit_length :: "nat \<Rightarrow> nat" where
  "bit_length n = (if n = 0 then 0 else Suc (bit_length (n div 2)))"

declare bit_length.simps [simp del]

partial_function (option) randbelow_loop :: "nat \<Rightarrow> nat \<Rightarrow> rng \<Rightarrow> (nat \<times> rng) option" where
  "randbelow_loop n k g =
     (let (x, g1) = getrandbits k g
      in if n \<le> x then randbelow_loop n k g1 else Some (x, g1))"

definition randbelow :: "nat \<Rightarrow> rng \<Rightarrow> (nat \<times> rng) option" where
  "randbelow n g = randbelow_loop n (bit_length n) g"

definition randint :: "int \<Rightarrow> int \<Rightarrow> rng \<Rightarrow> (error + int \<times> rng) option" where
  "randint a b g =
     (let width = b + 1 - a
      in if 0 < width
         then (case randbelow (nat width) g of
                 None \<Rightarrow> None
               | Some (k, g1) \<Rightarrow> Some (Inr (a + int k, g1)))
         else Some (Inl (ValueError ''empty range for randrange()'')))"

definition NV_MAGICCONST :: real where
  "NV_MAGICCONST = 4 * exp (- (1 / 2)) / sqrt 2"

partial_function (option) normalvariate :: "real \<Rightarrow> real \<Rightarrow> rng \<Rightarrow> (real \<times> rng) option" where
  "normalvariate mu sigma g =
     (let (u1, g1) = random_float g;
          (x, g2) = random_float g1;
          u2 = 1 - x;
          z = NV_MAGICCONST * (u1 - 1 / 2) / u2;
          zz = z * z / 4
      in if zz \<le> - ln u2 then Some (mu + z * sigma, g2) else normalvariate mu sigma g2)"


section \<open>The simulation substrate: clock and resources\<close>

record environment =
  now :: time

definition Environment_init :: environment where
  "Environment_init = \<lparr>now = 0\<rparr>"

text \<open>
  Modelled from the spec: the event queue (simpy.Environment in the source's import) is not
  among the sources. \<open>scheduleAt\<close> fails with \<open>ScheduleError\<close> if it is given a time strictly
  less than \<open>now\<close>; \<open>timeout(duration)\<close> schedules an event at \<open>now + duration\<close>. The result
  is the time the event is scheduled for.
\<close>

definition scheduleAt :: "time \<Rightarrow> environment \<Rightarrow> error + time" where
  "scheduleAt t e = (if t < now e then Inl ScheduleError else Inr t)"

definition timeout :: "real \<Rightarrow> environment \<Rightarrow> error + time" where
  "timeout duration e = scheduleAt (now e + duration) e"

text \<open>
  Modelled from the spec: the resource (simpy.Resource in the source's import) is not among
  the sources. A resource has a capacity, the requests that hold a slot and a FIFO queue of
  waiting requests; requests are identified by numbers. \<open>request\<close>: if the resource has a
  free slot and its wait queue is empty, grant immediately (held += 1), otherwise enqueue
  the requester at the tail of the wait queue; the result says whether the grant was
  immediate. \<open>release\<close>: decrement held and, if the wait queue is non-empty, grant the slot
  to its head; releasing what is not held is a \<open>ResourceInvariantError\<close>. \<open>count\<close> is the
  number of held slots.
\<close>

record resource =
  capacity :: nat
  users :: "nat list"
  queue :: "nat list"

definition Resource_init :: "nat \<Rightarrow> resource" where
  "Resource_init c = \<lparr>capacity = c, users = [], queue = []\<rparr>"

definition count :: "resource \<Rightarrow> nat" where
  "count res = length (users res)"

definition request :: "nat \<Rightarrow> resource \<Rightarrow> bool \<times> resource" where
  "request rid res =
     (if count res < capacity res \<and> queue res = []
      then (True, res\<lparr>users := users res @ [rid]\<rparr>)
      else (False, res\<lparr>queue := queue res @ [rid]\<rparr>))"

definition release :: "nat \<Rightarrow> resource \<Rightarrow> (error + unit) \<times> resource" where
  "release rid res =
     (if rid \<notin> set (users res) then (Inl ResourceInvariantError, res)
      else
        let held = remove1 rid (users res)
        in case queue res of
             [] \<Rightarrow> (Inr (), res\<lparr>users := held\<rparr>)
           | q # qs \<Rightarrow> (Inr (), res\<lparr>users := held @ [q], queue := qs\<rparr>))"

text \<open>
  Leaving the \<open>with\<close> block of a request: a request that is still waiting is withdrawn from
  the queue, a granted one is released. \<open>leave\<close> is the end of the block with the outcome of
  its body; an error of the exit itself replaces that outcome.
\<close>

definition exit_request :: "nat \<Rightarrow> resource \<Rightarrow> (error + unit) \<times> resource" where
  "exit_request rid res =
     (if rid \<in> set (queue res) then (Inr (), res\<lparr>queue := remove1 rid (queue res)\<rparr>)
      else release rid res)"

definition leave :: "nat \<Rightarrow> error + 'a \<Rightarrow> resource \<Rightarrow> (error + 'a) \<times> resource" where
  "leave rid outcome res =
     (case exit_request rid res of
        (Inl e, res') \<Rightarrow> (Inl e, res')
      | (Inr u, res') \<Rightarrow> (outcome, res'))"

text \<open>
  Modelled from the spec: \<open>advance()\<close> pops the earliest event, sets \<open>now\<close> to its time and
  invokes its resumption. A process that yielded an event scheduled for \<open>t'\<close> therefore runs
  again with the clock at \<open>t'\<close>. A request granted immediately is an event scheduled for
  the time of the request; a request that had to queue has no event until a release grants
  it, and \<open>Pending\<close> leaves that time to whoever releases.
\<close>

datatype wakeup = At time | Pending

definition resume_at :: "time \<Rightarrow> 'a environment_scheme \<Rightarrow> 'a environment_scheme" where
  "resume_at t e = e\<lparr>now := t\<rparr>"

definition resume :: "wakeup \<Rightarrow> time \<Rightarrow> environment \<Rightarrow> environment" where
  "resume wk t e = (case wk of At t' \<Rightarrow> resume_at t' e | Pending \<Rightarrow> resume_at t e)"

text \<open>Python's list indexing: a negative index counts from the end.\<close>

definition position :: "'a list \<Rightarrow> int \<Rightarrow> error + nat" where
  "position xs i =
     (if 0 \<le> i \<and> i < int (length xs) then Inr (nat i)
      else if i < 0 \<and> - int (length xs) \<le> i then Inr (nat (int (length xs) + i))
      else Inl IndexError)"


section \<open>The clinic (class Polyclinic)\<close>

record polyclinic =
  env :: environment
  r :: rng
  intensity :: real
  registry_time :: "real \<Rightarrow> real"
  registry :: resource
  probability_visiting_therapist :: real
  therapists_number :: nat
  therapists :: resource
  doctors_number :: nat
  doctors :: "resource list"
  probability_continue_service :: real
  queue_at_registry :: statistic_value
  queue_at_therapist :: statistic_value
  queue_at_doctors :: "statistic_value list"

text \<open>
  The constructor; \<open>seed42\<close> is the output stream of the generator seeded with 42. It does
  not touch \<open>Patient.all_created\<close>.
\<close>

definition Polyclinic_init :: "(real \<Rightarrow> real) \<Rightarrow> environment option \<Rightarrow> (nat \<Rightarrow> nat) \<Rightarrow> polyclinic" where
  "Polyclinic_init rt e seed42 =
     \<lparr>env = (case e of None \<Rightarrow> Environment_init | Some e' \<Rightarrow> e'),
      r = \<lparr>outputs = seed42, pos = 0\<rparr>,
      intensity = 65 / 60 / 60,
      registry_time = rt,
      registry = Resource_init 1,
      probability_visiting_therapist = 75 / 100,
      therapists_number = 8,
      therapists = Resource_init 8,
      doctors_number = 10,
      doctors = replicate 10 (Resource_init 1),
      probability_continue_service = 2 / 10,
      queue_at_registry = StatisticValue_init,
      queue_at_therapist = StatisticValue_init,
      queue_at_doctors = replicate 10 StatisticValue_init\<rparr>"

definition therapist_process_time :: "polyclinic \<Rightarrow> ((error + int) \<times> polyclinic) option" where
  "therapist_process_time w =
     (case randint (5 * 60) (15 * 60) (r w) of
        None \<Rightarrow> None
      | Some (Inl e) \<Rightarrow> Some (Inl e, w)
      | Some (Inr (k, g)) \<Rightarrow> Some (Inr k, w\<lparr>r := g\<rparr>))"

definition doctor_process_time :: "polyclinic \<Rightarrow> (real \<times> polyclinic) option" where
  "doctor_process_time w =
     (let mu = 15 * 60;
          sigma = 25 / 10 * 60
      in case normalvariate mu sigma (r w) of
           None \<Rightarrow> None
         | Some (d, g) \<Rightarrow> Some (d, w\<lparr>r := g\<rparr>))"



section \<open>The visits (generators of class Polyclinic)\<close>

text \<open>
  \<open>visit_therapist\<close> and \<open>visit_doctor\<close> are generators: they run up to a \<open>yield\<close>, are
  suspended, and run on when the scheduler resumes them. Each is modelled by one function
  per stretch of code between two suspension points, with the local variables that are
  live at the suspension as the value handed from one stretch to the next:
  \<^item> \<open>_request\<close>: from the entry to \<open>yield request\<close>; it hands on \<open>Timed request time\<close> from
    the branch that measures the wait and \<open>Untimed request\<close> from the other one;
  \<^item> \<open>_granted\<close>: from there to \<open>yield self.env.timeout(...)\<close>;
  \<^item> \<open>_served\<close>: from there to the end, the exit of the \<open>with\<close> block included.
  The argument \<open>rid\<close> is the identity of the request object that the call creates.
\<close>

datatype pending = Timed nat time | Untimed nat

record serving =
  req :: nat
  waited :: real
  since :: time

definition visit_therapist_request :: "nat \<Rightarrow> polyclinic \<Rightarrow> pending \<times> wakeup \<times> polyclinic" where
  "visit_therapist_request rid w =
     (let (granted, res) = request rid (therapists w);
          wk = (if granted then At (now (env w)) else Pending);
          w1 = w\<lparr>therapists := res\<rparr>
      in if count (therapists w1) \<noteq> 0
         then (Timed rid (now (env w1)), wk,
               w1\<lparr>queue_at_therapist := iadd (now (env w1)) 1 (queue_at_therapist w1)\<rparr>)
         else (Untimed rid, wk, w1))"

definition visit_therapist_granted ::
  "pending \<Rightarrow> polyclinic \<Rightarrow> ((error + serving \<times> time) \<times> polyclinic) option" where
  "visit_therapist_granted st w =
     (let (rid, waiting, w1) =
            (case st of
               Timed rid time0 \<Rightarrow>
                 (rid, now (env w) - time0,
                  w\<lparr>queue_at_therapist := isub (now (env w)) 1 (queue_at_therapist w)\<rparr>)
             | Untimed rid \<Rightarrow> (rid, 0, w));
          time0 = now (env w1)
      in case therapist_process_time w1 of
           None \<Rightarrow> None
         | Some (Inl e, w2) \<Rightarrow>
             let (outcome, res) = leave rid (Inl e) (therapists w2)
             in Some (outcome, w2\<lparr>therapists := res\<rparr>)
         | Some (Inr d, w2) \<Rightarrow>
             (case timeout (real_of_int d) (env w2) of
                Inl e \<Rightarrow>
                  let (outcome, res) = leave rid (Inl e) (therapists w2)
                  in Some (outcome, w2\<lparr>therapists := res\<rparr>)
              | Inr t \<Rightarrow> Some (Inr (\<lparr>req = rid, waited = waiting, since = time0\<rparr>, t), w2)))"

definition visit_therapist_served ::
  "serving \<Rightarrow> patient \<Rightarrow> polyclinic \<Rightarrow> (error + unit) \<times> patient \<times> polyclinic" where
  "visit_therapist_served st p w =
     (let service = now (env w) - since st;
          (outcome, p1) = add_visit ''therapist'' (waited st) service p;
          (outcome1, res) = leave (req st) outcome (therapists w)
      in (outcome1, p1, w\<lparr>therapists := res\<rparr>))"

text \<open>
  A whole visit. Between a suspension and the resumption other processes run:
  \<open>others1\<close> and \<open>others2\<close> are what they do to the clinic meanwhile, and \<open>t_grant\<close> is
  the clock reading at which a queued request is granted.
\<close>

definition visit_therapist ::
  "nat \<Rightarrow> patient \<Rightarrow> (polyclinic \<Rightarrow> polyclinic) \<Rightarrow> time \<Rightarrow> (polyclinic \<Rightarrow> polyclinic) \<Rightarrow> polyclinic
     \<Rightarrow> ((error + unit) \<times> patient \<times> polyclinic) option" where
  "visit_therapist rid p others1 t_grant others2 w =
     (let (st1, wk, w1) = visit_therapist_request rid w;
          w1' = others1 w1;
          w1'' = w1'\<lparr>env := resume wk t_grant (env w1')\<rparr>
      in case visit_therapist_granted st1 w1'' of
           None \<Rightarrow> None
         | Some (Inl e, w2) \<Rightarrow> Some (Inl e, p, w2)
         | Some (Inr (st2, t), w2) \<Rightarrow>
             let w2' = others2 w2;
                 w2'' = w2'\<lparr>env := resume_at t (env w2')\<rparr>
             in Some (visit_therapist_served st2 p w2''))"

text \<open>
  The specialist visit. The local variable \<open>doctor\<close> and \<open>self.doctors[index]\<close> are the same
  object; the model reads and writes the list at that index.
\<close>

definition choose_index :: "int option \<Rightarrow> polyclinic \<Rightarrow> ((error + int) \<times> polyclinic) option" where
  "choose_index index_arg w =
     (case index_arg of
        Some i \<Rightarrow> Some (Inr i, w)
      | None \<Rightarrow>
          (case randint 0 (int (doctors_number w) - 1) (r w) of
             None \<Rightarrow> None
           | Some (Inl e) \<Rightarrow> Some (Inl e, w)
           | Some (Inr (i, g)) \<Rightarrow> Some (Inr i, w\<lparr>r := g\<rparr>)))"

definition leave_doctor :: "int \<Rightarrow> nat \<Rightarrow> error + 'a \<Rightarrow> polyclinic \<Rightarrow> (error + 'a) \<times> polyclinic" where
  "leave_doctor i rid outcome w =
     (case position (doctors w) i of
        Inl e \<Rightarrow> (Inl e, w)
      | Inr n \<Rightarrow>
          let (outcome1, doctor) = leave rid outcome (doctors w ! n)
          in (outcome1, w\<lparr>doctors := (doctors w)[n := doctor]\<rparr>))"

definition visit_doctor_request ::
  "nat \<Rightarrow> int option \<Rightarrow> polyclinic \<Rightarrow> ((error + int \<times> pending \<times> wakeup) \<times> polyclinic) option" where
  "visit_doctor_request rid index_arg w =
     (case choose_index index_arg w of
        None \<Rightarrow> None
      | Some (Inl e, w0) \<Rightarrow> Some (Inl e, w0)
      | Some (Inr i, w0) \<Rightarrow>
          (case position (doctors w0) i of
             Inl e \<Rightarrow> Some (Inl e, w0)
           | Inr n \<Rightarrow>
               let (granted, doctor) = request rid (doctors w0 ! n);
                   wk = (if granted then At (now (env w0)) else Pending);
                   w1 = w0\<lparr>doctors := (doctors w0)[n := doctor]\<rparr>
               in if count doctor \<noteq> 0
                  then (case position (queue_at_doctors w1) i of
                          Inl e \<Rightarrow> Some (leave_doctor i rid (Inl e) w1)
                        | Inr m \<Rightarrow>
                            Some (Inr (i, Timed rid (now (env w1)), wk),
                                  w1\<lparr>queue_at_doctors := (queue_at_doctors w1)
                                       [m := iadd (now (env w1)) 1 (queue_at_doctors w1 ! m)]\<rparr>))
                  else Some (Inr (i, Untimed rid, wk), w1)))"

definition request_of :: "pending \<Rightarrow> nat" where
  "request_of pend = (case pend of Timed rid time0 \<Rightarrow> rid | Untimed rid \<Rightarrow> rid)"

definition visit_doctor_granted ::
  "int \<times> pending \<Rightarrow> polyclinic \<Rightarrow> ((error + int \<times> serving \<times> time) \<times> polyclinic) option" where
  "visit_doctor_granted st w =
     (let (i, pend) = st;
          rid = request_of pend;
          measured =
            (case pend of
               Timed rid' time0 \<Rightarrow>
                 (case position (queue_at_doctors w) i of
                    Inl e \<Rightarrow> Inl e
                  | Inr m \<Rightarrow>
                      Inr (now (env w) - time0,
                           w\<lparr>queue_at_doctors := (queue_at_doctors w)
                                [m := isub (now (env w)) 1 (queue_at_doctors w ! m)]\<rparr>))
             | Untimed rid' \<Rightarrow> Inr (0, w))
      in case measured of
           Inl e \<Rightarrow> Some (leave_doctor i rid (Inl e) w)
         | Inr (waiting, w1) \<Rightarrow>
             let time0 = now (env w1)
             in (case doctor_process_time w1 of
                   None \<Rightarrow> None
                 | Some (d, w2) \<Rightarrow>
                     (case timeout d (env w2) of
                        Inl e \<Rightarrow> Some (leave_doctor i rid (Inl e) w2)
                      | Inr t \<Rightarrow>
                          Some (Inr (i, \<lparr>req = rid, waited = waiting, since = time0\<rparr>, t), w2))))"

definition visit_doctor_served ::
  "int \<times> serving \<Rightarrow> patient \<Rightarrow> polyclinic \<Rightarrow> (error + unit) \<times> patient \<times> polyclinic" where
  "visit_doctor_served st p w =
     (let (i, sv) = st;
          service = now (env w) - since sv;
          (outcome, p1) = add_visit ''therapist'' (waited sv) service p;
          (outcome1, w1) = leave_doctor i (req sv) outcome w
      in (outcome1, p1, w1))"

definition visit_doctor ::
  "nat \<Rightarrow> patient \<Rightarrow> int option \<Rightarrow> (polyclinic \<Rightarrow> polyclinic) \<Rightarrow> time \<Rightarrow> (polyclinic \<Rightarrow> polyclinic)
     \<Rightarrow> polyclinic \<Rightarrow> ((error + unit) \<times> patient \<times> polyclinic) option" where
  "visit_doctor rid p index_arg others1 t_grant others2 w =
     (case visit_doctor_request rid index_arg w of
        None \<Rightarrow> None
      | Some (Inl e, w1) \<Rightarrow> Some (Inl e, p, w1)
      | Some (Inr (i, pend, wk), w1) \<Rightarrow>
          let w1' = others1 w1;
              w1'' = w1'\<lparr>env := resume wk t_grant (env w1')\<rparr>
          in (case visit_doctor_granted (i, pend) w1'' of
                None \<Rightarrow> None
              | Some (Inl e, w2) \<Rightarrow> Some (Inl e, p, w2)
              | Some (Inr (i', sv, t), w2) \<Rightarrow>
                  let w2' = others2 w2;
                      w2'' = w2'\<lparr>env := resume_at t (env w2')\<rparr>
                  in Some (visit_doctor_served (i', sv) p w2'')))"

text \<open>
  Modelled from the spec: the flow that takes a patient through the stages is not among
  the sources, and nothing in the sources assigns \<open>exit\<close>. Its last state is Departed:
  record \<open>exit = now\<close>; the process terminates.
\<close>

definition depart :: "patient \<Rightarrow> polyclinic \<Rightarrow> patient" where
  "depart p w = p\<lparr>exit := Some (now (env w))\<rparr>"


section \<open>The Python process: objects constructed over time\<close>

text \<open>
  \<open>Patient.all_created\<close> belongs to the class, so it is part of the state of the Python
  process and not of any clinic. A process constructs patients and clinics in some order.
\<close>

datatype construction =
    New_Patient int real
  | New_Polyclinic "real \<Rightarrow> real" "environment option" "nat \<Rightarrow> nat"

record process =
  all_created :: "patient list"
  polyclinics :: "polyclinic list"

fun execute :: "construction \<Rightarrow> process \<Rightarrow> process" where
  "execute (New_Patient i e) g = g\<lparr>all_created := snd (Patient_init i e (all_created g))\<rparr>"
| "execute (New_Polyclinic rt e seed42) g =
     g\<lparr>polyclinics := polyclinics g @ [Polyclinic_init rt e seed42]\<rparr>"

text \<open>The patients a sequence of constructions creates, in the order of their creation.\<close>

fun patients_of :: "construction list \<Rightarrow> patient list" where
  "patients_of [] = []"
| "patients_of (New_Patient i e # cs) = fst (Patient_init i e []) # patients_of cs"
| "patients_of (New_Polyclinic rt e seed42 # cs) = patients_of cs"


section \<open>Concrete clinics used in the examples\<close>

definition zeros :: "nat \<Rightarrow> nat" where
  "zeros i = 0"

definition half_first :: "nat \<Rightarrow> nat" where
  "half_first i = (if i = 0 then 2147483648 else 0)"

text \<open>
  Four outputs that make \<open>random()\<close> return \<open>1/2 - 5/2^46\<close> and then \<open>1 - 1/2^46\<close>.
\<close>

definition negative_draws :: "nat \<Rightarrow> nat" where
  "negative_draws i =
     (if i = 0 then 2147483616 else if i = 1 then 4294926336
      else if i = 2 then 4294967264 else if i = 3 then 4294959104 else 0)"

definition identity_time :: "real \<Rightarrow> real" where
  "identity_time u = u"

definition fresh_clinic :: polyclinic where
  "fresh_clinic = Polyclinic_init identity_time None zeros"

definition three_busy :: polyclinic where
  "three_busy = fresh_clinic\<lparr>therapists := \<lparr>capacity = 8, users = [1, 2, 3], queue = []\<rparr>\<rparr>"

definition half_clinic :: polyclinic where
  "half_clinic = Polyclinic_init identity_time None half_first"

definition unlucky_clinic :: polyclinic where
  "unlucky_clinic = Polyclinic_init identity_time None negative_draws"

definition newcomer :: patient where
  "newcomer = \<lparr>index = 0, enter = 0, exit = None, visits = []\<rparr>"


section \<open>Properties of the statistic\<close>

lemma set_history: "set (history s) = set (history' s)"
  by (simp add: history_def)

lemma set_update_subset: "set (AList.update k v al) \<subseteq> insert (k, v) (set al)"
  by (induction al) auto

lemma update_mem: "(k, v) \<in> set (AList.update k v al)"
  by (induction al) auto

lemma value_iadd: "value' (iadd t d s) = value' s + d"
  by (simp add: iadd_def Let_def max_value_def)

lemma value_isub: "value' (isub t d s) = value' s - d"
  by (simp add: isub_def Let_def)

lemma value_mutate: "value' (mutate (t, m) s) = value' s + signed m"
  by (cases m) (simp_all add: iadd_def isub_def Let_def max_value_def)

lemma history_mutate:
  "history' (mutate (t, m) s) = AList.update t (value' s + signed m) (history' s)"
  by (cases m) (simp_all add: iadd_def isub_def Let_def max_value_def)

lemma max_value_iadd: "max_value' (iadd t d s) = max (value' s + d) (max_value' s)"
  by (simp add: iadd_def Let_def max_value_def)

lemma max_value_isub: "max_value' (isub t d s) = max_value' s"
  by (simp add: isub_def Let_def)

lemma run_nonempty: "run ms s \<noteq> []"
  by (cases ms) simp_all

lemma ever_present_Cons:
  "ever_present (s # ss) = snd ` set (history' s) \<union> ever_present ss"
  by (simp add: ever_present_def set_history)

lemma finite_ever_present: "finite (ever_present ss)"
  by (simp add: ever_present_def)

lemma bounded_by_max_mutate:
  assumes "bounded_by_max s" and "nonneg_decrement m"
  shows "bounded_by_max (mutate m s)"
proof -
  obtain t op where m: "m = (t, op)" by (cases m)
  have val: "value' (mutate m s) \<le> max_value' (mutate m s)"
    using assms by (cases op) (simp_all add: m value_iadd value_isub max_value_iadd max_value_isub bounded_by_max_def)
  have mono: "max_value' s \<le> max_value' (mutate m s)"
    by (cases op) (simp_all add: m max_value_iadd max_value_isub)
  have "snd e \<le> max_value' (mutate m s)" if "e \<in> set (history' (mutate m s))" for e
  proof -
    from that have "e = (t, value' (mutate m s)) \<or> e \<in> set (history' s)"
      using set_update_subset [of t "value' s + signed op" "history' s"]
      by (auto simp: m history_mutate value_mutate)
    then show ?thesis
      using val mono assms(1) by (auto simp: bounded_by_max_def list_all_iff)
  qed
  with val show ?thesis by (simp add: bounded_by_max_def list_all_iff)
qed

lemma max_value_mutate_mono: "max_value' s \<le> max_value' (mutate m s)"
proof -
  obtain t op where m: "m = (t, op)" by (cases m)
  show ?thesis
    by (cases op) (simp_all add: m max_value_iadd max_value_isub)
qed

lemma run_max_mono: "max_value' s \<le> max_value' (last (run ms s))"
proof (induction ms arbitrary: s)
  case Nil
  then show ?case by simp
next
  case (Cons m ms)
  have "max_value' s \<le> max_value' (mutate m s)"
    by (rule max_value_mutate_mono)
  also have "\<dots> \<le> max_value' (last (run ms (mutate m s)))"
    by (rule Cons.IH)
  finally show ?case by (simp add: run_nonempty)
qed

lemma max_value_upper:
  "bounded_by_max s \<Longrightarrow> list_all nonneg_decrement ms \<Longrightarrow> v \<in> ever_present (run ms s) \<Longrightarrow>
     v \<le> max_value' (last (run ms s))"
proof (induction ms arbitrary: s)
  case Nil
  then show ?case
    by (auto simp: ever_present_Cons ever_present_def set_history bounded_by_max_def list_all_iff)
next
  case (Cons m ms)
  have step: "bounded_by_max (mutate m s)"
    using Cons.prems by (simp add: bounded_by_max_mutate)
  have tl: "list_all nonneg_decrement ms"
    using Cons.prems by simp
  from Cons.prems(3) consider "v \<in> snd ` set (history' s)" | "v \<in> ever_present (run ms (mutate m s))"
    by (auto simp: ever_present_Cons)
  then show ?case
  proof cases
    case 1
    have "v \<le> max_value' s"
      using 1 Cons.prems(1) by (auto simp: bounded_by_max_def list_all_iff)
    also have "\<dots> \<le> max_value' (last (run (m # ms) s))"
      by (rule run_max_mono)
    finally show ?thesis .
  next
    case 2
    then show ?thesis
      using Cons.IH [OF step tl] by (simp add: run_nonempty)
  qed
qed

lemma max_value_attained:
  "max_value' (last (run ms s)) \<in> insert (max_value' s) (ever_present (run ms s))"
proof (induction ms arbitrary: s)
  case Nil
  then show ?case by simp
next
  case (Cons m ms)
  obtain t op where m: "m = (t, op)" by (cases m)
  have now: "value' (mutate m s) \<in> ever_present (run ms (mutate m s))"
  proof -
    have "(t, value' (mutate m s)) \<in> set (history' (mutate m s))"
      by (simp add: m history_mutate value_mutate update_mem)
    then have "value' (mutate m s) \<in> snd ` set (history' (mutate m s))"
      by force
    then show ?thesis
      by (cases ms) (simp_all add: ever_present_Cons)
  qed
  have "max_value' (mutate m s) = max_value' s \<or> max_value' (mutate m s) = value' (mutate m s)"
    by (cases op) (auto simp: m max_value_iadd max_value_isub value_iadd value_isub max_def)
  with Cons.IH [of "mutate m s"] now show ?case
    by (auto simp: run_nonempty ever_present_Cons)
qed

lemma bounded_by_max_init: "bounded_by_max StatisticValue_init"
  by (simp add: bounded_by_max_def StatisticValue_init_def)


text \<open>
  C5, as amended. For a fresh statistic and every run of increments with arbitrary deltas
  and decrements with non-negative deltas, \<open>max_value\<close> at the end is the maximum of 0
  (the initial value) and of the values that were ever present in the history during the
  run. With a negative delta a decrement raises the value and leaves \<open>max_value\<close> as it
  was, so the claim does not hold for arbitrary decrements.
\<close>

theorem max_value_is_running_maximum:
  assumes "list_all nonneg_decrement ms"
  shows "max_value (last (run ms StatisticValue_init)) =
           Max (insert 0 (ever_present (run ms StatisticValue_init)))"
proof -
  let ?f = "last (run ms StatisticValue_init)"
  let ?S = "insert 0 (ever_present (run ms StatisticValue_init))"
  have zero: "max_value' StatisticValue_init = 0"
    by (simp add: StatisticValue_init_def)
  have mem: "max_value' ?f \<in> ?S"
    using max_value_attained [of ms StatisticValue_init] by (simp add: zero)
  have ub: "v \<le> max_value' ?f" if "v \<in> ?S" for v
  proof (cases "v = 0")
    case True
    then show ?thesis
      using run_max_mono [of StatisticValue_init ms] by (simp add: zero)
  next
    case False
    with that have "v \<in> ever_present (run ms StatisticValue_init)" by simp
    then show ?thesis
      using max_value_upper [OF bounded_by_max_init assms] by blast
  qed
  have "Max ?S = max_value' ?f"
    by (rule Max_eqI) (use mem ub finite_ever_present in auto)
  then show ?thesis by (simp add: max_value_def)
qed

theorem max_value_is_running_maximum_witness:
  "list_all nonneg_decrement [(0, Iadd 1), (0, Isub 1), (2, Iadd 3), (5, Isub 2)] \<and>
   max_value (last (run [(0, Iadd 1), (0, Isub 1), (2, Iadd 3), (5, Isub 2)] StatisticValue_init)) =
     Max (insert 0 (ever_present (run [(0, Iadd 1), (0, Isub 1), (2, Iadd 3), (5, Isub 2)] StatisticValue_init)))"
  using max_value_is_running_maximum [of "[(0, Iadd 1), (0, Isub 1), (2, Iadd 3), (5, Isub 2)]"]
  by simp

theorem max_value_negative_decrement_counterexample:
  "max_value (last (run [(0, Isub (- 5))] StatisticValue_init)) \<noteq>
     Max (insert 0 (ever_present (run [(0, Isub (- 5))] StatisticValue_init)))"
  by (simp add: max_value_def isub_def StatisticValue_init_def Let_def ever_present_def history_def)

lemma distinct_keys_mutate:
  "distinct (map fst (history' s)) \<Longrightarrow> distinct (map fst (history' (mutate m s)))"
  by (cases m) (simp add: history_mutate distinct_update)

lemma distinct_keys_run:
  "distinct (map fst (history' s)) \<Longrightarrow> distinct (map fst (history' (last (run ms s))))"
proof (induction ms arbitrary: s)
  case Nil
  then show ?case by simp
next
  case (Cons m ms)
  from Cons.prems have "distinct (map fst (history' (mutate m s)))"
    by (rule distinct_keys_mutate)
  then show ?case
    using Cons.IH by (simp add: run_nonempty)
qed

lemma map_of_run:
  "map_of (history' (last (run ms s))) = map_of (rev (writes (value' s) ms) @ history' s)"
proof (induction ms arbitrary: s)
  case Nil
  then show ?case by simp
next
  case (Cons a ms)
  obtain t m where a: "a = (t, m)" by (cases a)
  let ?v = "value' s + signed m"
  have "map_of (history' (last (run (a # ms) s))) =
          map_of (rev (writes ?v ms) @ history' (mutate (t, m) s))"
    using Cons.IH [of "mutate (t, m) s"] by (simp add: a run_nonempty value_mutate)
  also have "\<dots> = (map_of (history' s))(t \<mapsto> ?v) ++ map_of (rev (writes ?v ms))"
    by (simp add: history_mutate update_conv')
  also have "\<dots> = map_of (rev (writes (value' s) (a # ms)) @ history' s)"
    by (simp add: a)
  finally show ?case .
qed

lemma last_write_map_of: "last_write t ws = map_of (rev ws) t"
proof (induction ws rule: rev_induct)
  case Nil
  then show ?case by (simp add: last_write_def)
next
  case (snoc w ws)
  show ?case
  proof (cases "fst w = t")
    case True
    then show ?thesis
      by (cases w) (simp add: last_write_def)
  next
    case False
    then show ?thesis
      using snoc.IH by (cases w) (simp add: last_write_def)
  qed
qed

lemma sort_key_fst_keys:
  assumes "distinct (map fst xs)"
  shows "sorted_wrt (<) (map fst (sort_key fst xs))" and "map_of (sort_key fst xs) = map_of xs"
proof -
  have d: "distinct (map fst (sort_key fst xs))"
    using assms by (simp add: distinct_map)
  then show "sorted_wrt (<) (map fst (sort_key fst xs))"
    by (simp add: strict_sorted_iff)
  show "map_of (sort_key fst xs) = map_of xs"
    using d assms by (simp add: map_of_inject_set)
qed

text \<open>
  C7. For a fresh statistic and every sequence of mutations, at arbitrary clock readings,
  \<open>history\<close> lists its entries in strictly ascending order of time, and the entry for a
  time \<open>t\<close> is the value written by the latest mutation at \<open>t\<close> (no entry if there was
  none).
\<close>

theorem history_sorted_last_write_wins:
  "sorted_wrt (<) (map fst (history (last (run ms StatisticValue_init)))) \<and>
   map_of (history (last (run ms StatisticValue_init))) t = last_write t (writes 0 ms)"
proof -
  let ?f = "last (run ms StatisticValue_init)"
  have d: "distinct (map fst (history' ?f))"
    by (rule distinct_keys_run) (simp add: StatisticValue_init_def)
  have "map_of (history ?f) = map_of (history' ?f)"
    unfolding history_def by (rule sort_key_fst_keys(2) [OF d])
  also have "\<dots> = map_of (rev (writes 0 ms))"
    using map_of_run [of ms StatisticValue_init] by (simp add: StatisticValue_init_def)
  finally have "map_of (history ?f) t = last_write t (writes 0 ms)"
    by (simp add: last_write_map_of)
  moreover have "sorted_wrt (<) (map fst (history ?f))"
    unfolding history_def by (rule sort_key_fst_keys(1) [OF d])
  ultimately show ?thesis by simp
qed

text \<open>
  C3. For a recognised stage type, \<open>add_visit\<close> appends one record in which a waiting time
  below 1 is recorded as 0 and any other is recorded unchanged, and likewise,
  independently, for the service time.
\<close>

theorem add_visit_floors_below_one:
  assumes "ty = ''therapist'' \<or> ty = ''doctor''"
  shows "add_visit ty w s p =
           (Inr (), p\<lparr>visits := visits p @
              [\<lparr>type' = ty,
                waiting_time = (if w < 1 then 0 else w),
                service_time = (if s < 1 then 0 else s)\<rparr>]\<rparr>)"
  using assms by (auto simp: add_visit_def)

theorem add_visit_floors_below_one_witness:
  "add_visit ''doctor'' (1 / 2) 12 \<lparr>index = 7, enter = 0, exit = None, visits = []\<rparr> =
     (Inr (), \<lparr>index = 7, enter = 0, exit = None,
               visits = [\<lparr>type' = ''doctor'', waiting_time = 0, service_time = 12\<rparr>]\<rparr>)"
  using add_visit_floors_below_one
          [of "''doctor''" "1 / 2" 12 "\<lparr>index = 7, enter = 0, exit = None, visits = []\<rparr>"]
  by simp

text \<open>
  C6. \<open>add_visit\<close> raises exactly when the stage type is neither \<open>therapist\<close> nor \<open>doctor\<close>,
  and when it raises the list of visits of the patient is as it was.
\<close>

theorem add_visit_raises_iff_unrecognised:
  "((\<exists>e. fst (add_visit ty w s p) = Inl e) \<longleftrightarrow> ty \<notin> {''therapist'', ''doctor''}) \<and>
   (\<forall>e. fst (add_visit ty w s p) = Inl e \<longrightarrow> visits (snd (add_visit ty w s p)) = visits p)"
  by (auto simp: add_visit_def Let_def)

theorem add_visit_raises_iff_unrecognised_witness:
  "fst (add_visit ''nurse'' 5 10 \<lparr>index = 7, enter = 0, exit = None, visits = []\<rparr>) = Inl (ValueError ''nurse'') \<and>
   visits (snd (add_visit ''nurse'' 5 10 \<lparr>index = 7, enter = 0, exit = None, visits = []\<rparr>)) = []"
  using add_visit_raises_iff_unrecognised
          [of "''nurse''" 5 10 "\<lparr>index = 7, enter = 0, exit = None, visits = []\<rparr>"]
  by (simp add: add_visit_def)



section \<open>Properties of the visits\<close>

lemma request_free_slot:
  "count res < capacity res \<Longrightarrow> queue res = [] \<Longrightarrow>
     request rid res = (True, res\<lparr>users := users res @ [rid]\<rparr>)"
  by (simp add: request_def)

lemma leave_error [simp]: "leave rid (Inl e) res \<noteq> (Inr x, res')"
  by (auto simp: leave_def split: prod.splits sum.splits)

lemma leave_doctor_error [simp]: "leave_doctor i rid (Inl e) w \<noteq> (Inr x, w')"
  by (auto simp: leave_doctor_def split: prod.splits sum.splits)

lemma therapist_request_free_slot:
  assumes "count (therapists w) < capacity (therapists w)" and "queue (therapists w) = []"
  shows "\<exists>w1. visit_therapist_request rid w = (Timed rid (now (env w)), At (now (env w)), w1)"
  using assms by (simp add: visit_therapist_request_def request_free_slot count_def)

lemma therapist_granted_waited:
  assumes "visit_therapist_granted (Timed rid t0) w = Some (Inr (sv, t), w')"
  shows "waited sv = now (env w) - t0"
  using assms
  by (auto simp: visit_therapist_granted_def Let_def
           split: option.splits sum.splits prod.splits)

lemma therapist_served_record:
  assumes "visit_therapist_served sv p w = (Inr (), p', w')"
  shows "\<exists>v. visits p' = visits p @ [v] \<and> waiting_time v = (if waited sv < 1 then 0 else waited sv)"
  using assms
  by (auto simp: visit_therapist_served_def add_visit_def leave_def Let_def
           split: prod.splits sum.splits)

lemma therapist_free_slot_zero:
  assumes free: "count (therapists w) < capacity (therapists w)" "queue (therapists w) = []"
    and res: "visit_therapist rid p others1 t_grant others2 w = Some (Inr (), p', w')"
  shows "\<exists>v. visits p' = visits p @ [v] \<and> waiting_time v = 0"
proof -
  obtain w1 where req: "visit_therapist_request rid w = (Timed rid (now (env w)), At (now (env w)), w1)"
    using therapist_request_free_slot [OF free] by blast
  let ?w1 = "(others1 w1)\<lparr>env := resume (At (now (env w))) t_grant (env (others1 w1))\<rparr>"
  have clock: "now (env ?w1) = now (env w)"
    by (simp add: resume_def resume_at_def)
  from res req obtain sv t w2 where
    granted: "visit_therapist_granted (Timed rid (now (env w))) ?w1 = Some (Inr (sv, t), w2)" and
    served: "visit_therapist_served sv p ((others2 w2)\<lparr>env := resume_at t (env (others2 w2))\<rparr>)
               = (Inr (), p', w')"
    by (auto simp: visit_therapist_def Let_def split: option.splits sum.splits prod.splits)
  have "waited sv = 0"
    using therapist_granted_waited [OF granted] clock by simp
  with therapist_served_record [OF served] show ?thesis by simp
qed


lemma choose_index_keeps:
  assumes "choose_index index_arg w = Some (out, w0)"
  shows "doctors w0 = doctors w" and "env w0 = env w" and "queue_at_doctors w0 = queue_at_doctors w"
  using assms
  by (auto simp: choose_index_def split: option.splits sum.splits prod.splits)

lemma doctor_request_free_slot:
  assumes idx: "choose_index index_arg w = Some (Inr i, w0)"
    and pos: "position (doctors w) i = Inr n"
    and free: "count (doctors w ! n) < capacity (doctors w ! n)" "queue (doctors w ! n) = []"
    and req: "visit_doctor_request rid index_arg w = Some (Inr (i', pend, wk), w1)"
  shows "i' = i \<and> pend = Timed rid (now (env w)) \<and> wk = At (now (env w))"
proof -
  have same: "doctors w0 = doctors w" "env w0 = env w"
    using choose_index_keeps [OF idx] by simp_all
  have grant: "request rid (doctors w0 ! n) = (True, (doctors w ! n)\<lparr>users := users (doctors w ! n) @ [rid]\<rparr>)"
    using free by (simp add: same request_free_slot)
  show ?thesis
    using req idx pos grant
    by (auto simp: visit_doctor_request_def same count_def Let_def
             split: sum.splits prod.splits if_splits)
qed

lemma doctor_granted_waited:
  assumes "visit_doctor_granted (i, Timed rid t0) w = Some (Inr (i', sv, t), w')"
  shows "waited sv = now (env w) - t0"
  using assms
  by (auto simp: visit_doctor_granted_def Let_def request_of_def
           split: option.splits sum.splits prod.splits)

lemma doctor_served_record:
  assumes "visit_doctor_served (i, sv) p w = (Inr (), p', w')"
  shows "\<exists>v. visits p' = visits p @ [v] \<and> waiting_time v = (if waited sv < 1 then 0 else waited sv)"
  using assms
  by (auto simp: visit_doctor_served_def add_visit_def leave_doctor_def leave_def Let_def
           split: prod.splits sum.splits)

lemma doctor_free_slot_zero:
  assumes idx: "choose_index index_arg w = Some (Inr i, w0)"
    and pos: "position (doctors w) i = Inr n"
    and free: "count (doctors w ! n) < capacity (doctors w ! n)" "queue (doctors w ! n) = []"
    and res: "visit_doctor rid p index_arg others1 t_grant others2 w = Some (Inr (), p', w')"
  shows "\<exists>v. visits p' = visits p @ [v] \<and> waiting_time v = 0"
proof -
  from res obtain i' pend wk w1 where
    req: "visit_doctor_request rid index_arg w = Some (Inr (i', pend, wk), w1)"
    by (auto simp: visit_doctor_def split: option.splits sum.splits prod.splits)
  have shape: "i' = i" "pend = Timed rid (now (env w))" "wk = At (now (env w))"
    using doctor_request_free_slot [OF idx pos free req] by simp_all
  let ?w1 = "(others1 w1)\<lparr>env := resume (At (now (env w))) t_grant (env (others1 w1))\<rparr>"
  have clock: "now (env ?w1) = now (env w)"
    by (simp add: resume_def resume_at_def)
  from res req shape obtain i'' sv t w2 where
    granted: "visit_doctor_granted (i, Timed rid (now (env w))) ?w1 = Some (Inr (i'', sv, t), w2)" and
    served: "visit_doctor_served (i'', sv) p ((others2 w2)\<lparr>env := resume_at t (env (others2 w2))\<rparr>)
               = (Inr (), p', w')"
    by (auto simp: visit_doctor_def Let_def split: option.splits sum.splits prod.splits)
  have "waited sv = 0"
    using doctor_granted_waited [OF granted] clock by simp
  with doctor_served_record [OF served] show ?thesis by simp
qed


lemma bit_length_601: "bit_length 601 = 10"
  by (simp add: bit_length.simps)

lemma randint_zeros:
  "randint 300 900 \<lparr>outputs = zeros, pos = 0\<rparr> = Some (Inr (300, \<lparr>outputs = zeros, pos = 1\<rparr>))"
proof -
  have "getrandbits 10 \<lparr>outputs = zeros, pos = 0\<rparr> = (0, \<lparr>outputs = zeros, pos = 1\<rparr>)"
    by (simp add: getrandbits.simps genrand_uint32_def zeros_def)
  then have "randbelow 601 \<lparr>outputs = zeros, pos = 0\<rparr> = Some (0, \<lparr>outputs = zeros, pos = 1\<rparr>)"
    by (simp add: randbelow_def bit_length_601 randbelow_loop.simps)
  then show ?thesis
    by (simp add: randint_def)
qed

lemma normalvariate_half_first:
  "normalvariate 900 150 \<lparr>outputs = half_first, pos = 0\<rparr> = Some (900, \<lparr>outputs = half_first, pos = 4\<rparr>)"
proof -
  have u1: "random_float \<lparr>outputs = half_first, pos = 0\<rparr> = (1 / 2, \<lparr>outputs = half_first, pos = 2\<rparr>)"
    by (simp add: random_float_def genrand_uint32_def half_first_def)
  have u2: "random_float \<lparr>outputs = half_first, pos = 2\<rparr> = (0, \<lparr>outputs = half_first, pos = 4\<rparr>)"
    by (simp add: random_float_def genrand_uint32_def half_first_def)
  show ?thesis
    by (subst normalvariate.simps) (simp add: u1 u2)
qed

lemma therapist_example:
  "\<exists>w'. visit_therapist 1 newcomer id 0 id fresh_clinic =
     Some (Inr (), newcomer\<lparr>visits := [\<lparr>type' = ''therapist'', waiting_time = 0, service_time = 300\<rparr>]\<rparr>, w')
     \<and> max_value (queue_at_therapist w') = 1"
  by (simp add: visit_therapist_def visit_therapist_request_def visit_therapist_granted_def
        visit_therapist_served_def fresh_clinic_def newcomer_def Polyclinic_init_def Resource_init_def
        Environment_init_def StatisticValue_init_def request_def count_def resume_def resume_at_def
        iadd_def isub_def max_value_def therapist_process_time_def randint_zeros timeout_def
        scheduleAt_def add_visit_def leave_def exit_request_def release_def)

lemma doctor_example:
  "\<exists>w'. visit_doctor 1 newcomer (Some 3) id 0 id half_clinic =
     Some (Inr (), newcomer\<lparr>visits := [\<lparr>type' = ''therapist'', waiting_time = 0, service_time = 900\<rparr>]\<rparr>, w')"
  by (simp add: visit_doctor_def visit_doctor_request_def visit_doctor_granted_def
        visit_doctor_served_def choose_index_def position_def leave_doctor_def request_of_def
        half_clinic_def newcomer_def Polyclinic_init_def Resource_init_def
        Environment_init_def StatisticValue_init_def request_def count_def resume_def resume_at_def
        iadd_def isub_def max_value_def doctor_process_time_def normalvariate_half_first timeout_def
        scheduleAt_def add_visit_def leave_def exit_request_def release_def)


lemma NV_MAGICCONST_bounds: "4 / 3 \<le> NV_MAGICCONST" "NV_MAGICCONST \<le> 40 / 21"
proof -
  have e_lo: "1 / 2 \<le> exp (- (1 / 2) :: real)"
    using exp_ge_add_one_self [of "- (1 / 2) :: real"] by simp
  have "3 / 2 \<le> exp (1 / 2 :: real)"
    using exp_ge_add_one_self [of "1 / 2 :: real"] by simp
  then have "inverse (exp (1 / 2 :: real)) \<le> inverse (3 / 2)"
    by (intro le_imp_inverse_le) simp_all
  then have e_hi: "exp (- (1 / 2) :: real) \<le> 2 / 3"
    by (simp add: exp_minus)
  have s_hi: "sqrt 2 \<le> 3 / 2"
    by (rule real_le_lsqrt) (simp_all add: power2_eq_square)
  have s_lo: "7 / 5 \<le> sqrt 2"
    by (rule real_le_rsqrt) (simp add: power2_eq_square)
  have s_pos: "0 < sqrt (2 :: real)" by simp
  have "4 / 3 * sqrt 2 \<le> 4 / 3 * (3 / 2)"
    using s_hi by simp
  also have "\<dots> \<le> 4 * exp (- (1 / 2))"
    using e_lo by simp
  finally show "4 / 3 \<le> NV_MAGICCONST"
    unfolding NV_MAGICCONST_def using s_pos by (simp add: pos_le_divide_eq)
  have "4 * exp (- (1 / 2)) \<le> 4 * (2 / 3 :: real)"
    using e_hi by simp
  also have "\<dots> \<le> 40 / 21 * (7 / 5)"
    by simp
  also have "\<dots> \<le> 40 / 21 * sqrt 2"
    using s_lo by simp
  finally show "NV_MAGICCONST \<le> 40 / 21"
    unfolding NV_MAGICCONST_def using s_pos by (simp add: pos_divide_le_eq)
qed

lemma ln_two_pow_46: "23 \<le> ln (70368744177664 :: real)"
proof -
  have "(1 / 2 :: real) \<le> ln 2"
    using exp_half_le2 ln_ge_iff [of 2 "1 / 2"] by simp
  moreover have "ln (70368744177664 :: real) = 46 * ln 2"
  proof -
    have "(70368744177664 :: real) = 2 ^ 46" by simp
    then show ?thesis by (simp only: ln_realpow)
  qed
  ultimately show ?thesis by simp
qed

lemma normalvariate_negative_draws:
  "\<exists>d. normalvariate 900 150 \<lparr>outputs = negative_draws, pos = 0\<rparr>
          = Some (d, \<lparr>outputs = negative_draws, pos = 4\<rparr>) \<and> d < 0"
proof -
  have u1: "random_float \<lparr>outputs = negative_draws, pos = 0\<rparr>
              = (1 / 2 - 5 / 70368744177664, \<lparr>outputs = negative_draws, pos = 2\<rparr>)"
    by (simp add: random_float_def genrand_uint32_def negative_draws_def)
  have u2: "random_float \<lparr>outputs = negative_draws, pos = 2\<rparr>
              = (1 - 1 / 70368744177664, \<lparr>outputs = negative_draws, pos = 4\<rparr>)"
    by (simp add: random_float_def genrand_uint32_def negative_draws_def)
  define z where "z = - 5 * NV_MAGICCONST"
  have z_eq: "NV_MAGICCONST * (1 / 2 - 5 / 70368744177664 - 1 / 2) / (1 - (1 - 1 / 70368744177664)) = z"
    by (simp add: z_def)
  have lo: "- (200 / 21) \<le> z" and hi: "z \<le> - (20 / 3)"
    using NV_MAGICCONST_bounds by (simp_all add: z_def)
  have "z * z \<le> (200 / 21) * (200 / 21)"
  proof -
    have "z * z = (- z) * (- z)" by simp
    also have "\<dots> \<le> (200 / 21) * (200 / 21)"
      using lo hi by (intro mult_mono) simp_all
    finally show ?thesis .
  qed
  then have "z * z / 4 \<le> 23" by simp
  also have "\<dots> \<le> ln (70368744177664 :: real)" by (rule ln_two_pow_46)
  finally have accept: "z * z / 4 \<le> - ln (1 - (1 - 1 / 70368744177664 :: real))"
    by (simp add: ln_div)
  have neg: "900 + z * 150 < 0"
    using hi by simp
  have "normalvariate 900 150 \<lparr>outputs = negative_draws, pos = 0\<rparr>
          = Some (900 + z * 150, \<lparr>outputs = negative_draws, pos = 4\<rparr>)"
    apply (subst normalvariate.simps)
    apply (simp only: u1 u2 Let_def prod.case z_eq)
    using accept apply simp
    done
  with neg show ?thesis by blast
qed


text \<open>
  C4. If the requested resource has a free slot and an empty wait queue when a therapist
  visit or a specialist visit requests it, the request is an event for the very time of
  the request, and the record that the visit appends has waiting time exactly 0, whatever
  other processes do in between.
\<close>

theorem free_slot_waiting_time_zero:
  "(count (therapists w) < capacity (therapists w) \<longrightarrow> queue (therapists w) = [] \<longrightarrow>
      fst (snd (visit_therapist_request rid w)) = At (now (env w)) \<and>
      (visit_therapist rid p others1 t_grant others2 w = Some (Inr (), p', w') \<longrightarrow>
         (\<exists>v. visits p' = visits p @ [v] \<and> waiting_time v = 0))) \<and>
   (choose_index index_arg w = Some (Inr i, w0) \<longrightarrow> position (doctors w) i = Inr n \<longrightarrow>
      count (doctors w ! n) < capacity (doctors w ! n) \<longrightarrow> queue (doctors w ! n) = [] \<longrightarrow>
      (\<forall>i' pend wk w1. visit_doctor_request rid index_arg w = Some (Inr (i', pend, wk), w1) \<longrightarrow>
         wk = At (now (env w))) \<and>
      (visit_doctor rid p index_arg others1 t_grant others2 w = Some (Inr (), p', w') \<longrightarrow>
         (\<exists>v. visits p' = visits p @ [v] \<and> waiting_time v = 0)))"
proof (intro conjI impI allI)
  assume free: "count (therapists w) < capacity (therapists w)" "queue (therapists w) = []"
  show "fst (snd (visit_therapist_request rid w)) = At (now (env w))"
    using therapist_request_free_slot [OF free, of rid] by auto
  assume "visit_therapist rid p others1 t_grant others2 w = Some (Inr (), p', w')"
  then show "\<exists>v. visits p' = visits p @ [v] \<and> waiting_time v = 0"
    by (rule therapist_free_slot_zero [OF free])
next
  fix i' pend wk w1
  assume "choose_index index_arg w = Some (Inr i, w0)" "position (doctors w) i = Inr n"
    "count (doctors w ! n) < capacity (doctors w ! n)" "queue (doctors w ! n) = []"
    "visit_doctor_request rid index_arg w = Some (Inr (i', pend, wk), w1)"
  then show "wk = At (now (env w))"
    using doctor_request_free_slot by blast
next
  assume "choose_index index_arg w = Some (Inr i, w0)" "position (doctors w) i = Inr n"
    "count (doctors w ! n) < capacity (doctors w ! n)" "queue (doctors w ! n) = []"
    "visit_doctor rid p index_arg others1 t_grant others2 w = Some (Inr (), p', w')"
  then show "\<exists>v. visits p' = visits p @ [v] \<and> waiting_time v = 0"
    by (rule doctor_free_slot_zero)
qed

theorem free_slot_waiting_time_zero_witness:
  "(count (therapists fresh_clinic) < capacity (therapists fresh_clinic) \<and>
    queue (therapists fresh_clinic) = [] \<and>
    (\<exists>p' w'. visit_therapist 1 newcomer id 0 id fresh_clinic = Some (Inr (), p', w') \<and>
       (\<exists>v. visits p' = visits newcomer @ [v] \<and> waiting_time v = 0))) \<and>
   (choose_index (Some 3) half_clinic = Some (Inr 3, half_clinic) \<and>
    position (doctors half_clinic) 3 = Inr 3 \<and>
    count (doctors half_clinic ! 3) < capacity (doctors half_clinic ! 3) \<and>
    queue (doctors half_clinic ! 3) = [] \<and>
    (\<exists>p' w'. visit_doctor 1 newcomer (Some 3) id 0 id half_clinic = Some (Inr (), p', w') \<and>
       (\<exists>v. visits p' = visits newcomer @ [v] \<and> waiting_time v = 0)))"
proof -
  have t1: "count (therapists fresh_clinic) < capacity (therapists fresh_clinic)"
    and t2: "queue (therapists fresh_clinic) = []"
    by (simp_all add: fresh_clinic_def Polyclinic_init_def Resource_init_def count_def)
  obtain pt wt where t3: "visit_therapist 1 newcomer id 0 id fresh_clinic = Some (Inr (), pt, wt)"
    using therapist_example by blast
  have d1: "choose_index (Some 3) half_clinic = Some (Inr 3, half_clinic)"
    by (simp add: choose_index_def)
  have d2: "position (doctors half_clinic) 3 = Inr 3"
    by (simp add: position_def half_clinic_def Polyclinic_init_def)
  have d3: "count (doctors half_clinic ! 3) < capacity (doctors half_clinic ! 3)"
    and d4: "queue (doctors half_clinic ! 3) = []"
    by (simp_all add: half_clinic_def Polyclinic_init_def Resource_init_def count_def)
  obtain pd wd where d5: "visit_doctor 1 newcomer (Some 3) id 0 id half_clinic = Some (Inr (), pd, wd)"
    using doctor_example by blast
  show ?thesis
    using free_slot_waiting_time_zero
            [of fresh_clinic 1 newcomer id 0 id pt wt "Some 3" 3 fresh_clinic 3]
          free_slot_waiting_time_zero
            [of half_clinic 1 newcomer id 0 id pd wd "Some 3" 3 half_clinic 3]
          t1 t2 t3 d1 d2 d3 d4 d5
    by simp
qed

text \<open>
  C1: what the code does where the claim fails. Three of the eight therapist slots are
  held and nobody waits; a fourth patient asks for a therapist at time 0. The request is
  granted at once, and still the visit takes the branch that measures the wait and
  increments \<open>queue_at_therapist\<close>. The same happens for a specialist nobody is with, and
  after a whole therapist visit in an empty clinic the statistic reports a maximum queue
  of 1.
\<close>

theorem visit_increments_queue_without_wait:
  "count (therapists three_busy) < capacity (therapists three_busy) \<and>
   (\<exists>w1. visit_therapist_request 4 three_busy = (Timed 4 0, At 0, w1) \<and>
      value' (queue_at_therapist three_busy) = 0 \<and>
      value' (queue_at_therapist w1) = 1 \<and>
      history (queue_at_therapist w1) = [(0, 1)]) \<and>
   count (doctors fresh_clinic ! 3) < capacity (doctors fresh_clinic ! 3) \<and>
   (\<exists>w1. visit_doctor_request 1 (Some 3) fresh_clinic = Some (Inr (3, Timed 1 0, At 0), w1) \<and>
      value' (queue_at_doctors w1 ! 3) = 1) \<and>
   (\<exists>p' w'. visit_therapist 1 newcomer id 0 id fresh_clinic = Some (Inr (), p', w') \<and>
      max_value (queue_at_therapist w') = 1)"
proof -
  have a: "count (therapists three_busy) < capacity (therapists three_busy)"
    by (simp add: three_busy_def count_def)
  have b: "\<exists>w1. visit_therapist_request 4 three_busy = (Timed 4 0, At 0, w1) \<and>
      value' (queue_at_therapist three_busy) = 0 \<and>
      value' (queue_at_therapist w1) = 1 \<and>
      history (queue_at_therapist w1) = [(0, 1)]"
    by (simp add: visit_therapist_request_def three_busy_def fresh_clinic_def Polyclinic_init_def
          Environment_init_def StatisticValue_init_def request_def count_def iadd_def
          max_value_def history_def)
  have c: "count (doctors fresh_clinic ! 3) < capacity (doctors fresh_clinic ! 3)"
    by (simp add: fresh_clinic_def Polyclinic_init_def Resource_init_def count_def)
  have d: "\<exists>w1. visit_doctor_request 1 (Some 3) fresh_clinic = Some (Inr (3, Timed 1 0, At 0), w1) \<and>
      value' (queue_at_doctors w1 ! 3) = 1"
    by (simp add: visit_doctor_request_def choose_index_def position_def fresh_clinic_def
          Polyclinic_init_def Resource_init_def Environment_init_def StatisticValue_init_def
          request_def count_def iadd_def max_value_def)
  have e: "\<exists>p' w'. visit_therapist 1 newcomer id 0 id fresh_clinic = Some (Inr (), p', w') \<and>
      max_value (queue_at_therapist w') = 1"
    using therapist_example by blast
  from a b c d e show ?thesis by blast
qed

text \<open>
  C2: what the code does where the claim fails. Whatever the state, the record that the
  last stretch of \<open>visit_doctor\<close> appends carries the type \<open>therapist\<close>, the tag of
  \<open>visit_therapist\<close>, and not \<open>doctor\<close>, the other type that \<open>add_visit\<close> accepts.
\<close>

theorem visit_doctor_records_therapist:
  "(\<exists>v. visits (fst (snd (visit_doctor_served (i, sv) p w))) = visits p @ [v] \<and>
        type' v = ''therapist'' \<and> type' v \<noteq> ''doctor'') \<and>
   (\<exists>w'. visit_doctor 1 newcomer (Some 3) id 0 id half_clinic =
      Some (Inr (), newcomer\<lparr>visits := [\<lparr>type' = ''therapist'', waiting_time = 0, service_time = 900\<rparr>]\<rparr>, w'))"
proof -
  have "\<exists>v. visits (fst (snd (visit_doctor_served (i, sv) p w))) = visits p @ [v] \<and>
        type' v = ''therapist'' \<and> type' v \<noteq> ''doctor''"
    by (simp add: visit_doctor_served_def add_visit_def Let_def split: prod.splits)
  with doctor_example show ?thesis by blast
qed

text \<open>
  C8. When the flow reaches Departed, \<open>exit\<close> is the clock reading of that moment and so
  is no longer unset. Until then it is unset: the constructor leaves it unset, and neither
  \<open>add_visit\<close> nor the last stretch of a visit, the only code of the sources that touches
  a patient, changes it.
\<close>

theorem exit_set_on_departure:
  "exit (depart p w) = Some (now (env w)) \<and>
   exit (fst (Patient_init i e created)) = None \<and>
   exit (snd (add_visit ty wt st p)) = exit p \<and>
   exit (fst (snd (visit_therapist_served sv p w))) = exit p \<and>
   exit (fst (snd (visit_doctor_served (j, sv) p w))) = exit p"
  by (simp add: depart_def Patient_init_def add_visit_def visit_therapist_served_def
        visit_doctor_served_def Let_def split: prod.splits)

text \<open>
  C9. Constructing a patient appends the new patient to \<open>Patient.all_created\<close>. The list is
  part of the state of the process: after any sequence of constructions of patients and
  of clinics it is what it was before, followed by every patient constructed, in the
  order of construction; constructing a clinic does not reset it.
\<close>

theorem all_created_accumulates:
  "Patient_init i e created = (fst (Patient_init i e created), created @ [fst (Patient_init i e created)]) \<and>
   all_created (fold execute cs g) = all_created g @ patients_of cs \<and>
   all_created (execute (New_Polyclinic rt ev seed42) g) = all_created g"
proof -
  have "all_created (fold execute cs g) = all_created g @ patients_of cs"
  proof (induction cs arbitrary: g)
    case Nil
    then show ?case by simp
  next
    case (Cons c cs)
    then show ?case
      by (cases c) (simp_all add: Patient_init_def Let_def)
  qed
  then show ?thesis
    by (simp add: Patient_init_def Let_def)
qed

text \<open>
  C10. \<open>doctor_process_time\<close> is the normal variate with mean 900 and standard deviation
  150 as the generator returns it. There is a state of the generator in which it is
  strictly negative; \<open>visit_doctor\<close> then asks for a timeout with that negative delay,
  which is a request to schedule in the past and is refused.
\<close>

theorem doctor_process_time_can_be_negative:
  "doctor_process_time w =
     (case normalvariate 900 150 (r w) of None \<Rightarrow> None | Some (d, g) \<Rightarrow> Some (d, w\<lparr>r := g\<rparr>)) \<and>
   (\<exists>d w'. doctor_process_time unlucky_clinic = Some (d, w') \<and> d < 0 \<and>
      timeout d (env w') = Inl ScheduleError) \<and>
   (\<exists>w'. visit_doctor 1 newcomer (Some 3) id 0 id unlucky_clinic = Some (Inl ScheduleError, newcomer, w'))"
proof -
  have unfold: "doctor_process_time w =
     (case normalvariate 900 150 (r w) of None \<Rightarrow> None | Some (d, g) \<Rightarrow> Some (d, w\<lparr>r := g\<rparr>))" for w
    by (simp add: doctor_process_time_def)
  obtain d where d: "normalvariate 900 150 \<lparr>outputs = negative_draws, pos = 0\<rparr>
          = Some (d, \<lparr>outputs = negative_draws, pos = 4\<rparr>)" "d < 0"
    using normalvariate_negative_draws by blast
  have r0: "r unlucky_clinic = \<lparr>outputs = negative_draws, pos = 0\<rparr>"
    by (simp add: unlucky_clinic_def Polyclinic_init_def)
  have dpt: "doctor_process_time unlucky_clinic
               = Some (d, unlucky_clinic\<lparr>r := \<lparr>outputs = negative_draws, pos = 4\<rparr>\<rparr>)"
    by (simp add: unfold r0 d(1))
  have past: "timeout d (env (unlucky_clinic\<lparr>r := \<lparr>outputs = negative_draws, pos = 4\<rparr>\<rparr>)) = Inl ScheduleError"
    using d(2) by (simp add: timeout_def scheduleAt_def)
  have visit: "\<exists>w'. visit_doctor 1 newcomer (Some 3) id 0 id unlucky_clinic
                  = Some (Inl ScheduleError, newcomer, w')"
    using d(2)
    by (simp add: visit_doctor_def visit_doctor_request_def visit_doctor_granted_def
          choose_index_def position_def leave_doctor_def request_of_def
          unlucky_clinic_def newcomer_def Polyclinic_init_def Resource_init_def
          Environment_init_def StatisticValue_init_def request_def count_def resume_def resume_at_def
          iadd_def isub_def max_value_def doctor_process_time_def d(1) timeout_def
          scheduleAt_def leave_def exit_request_def release_def)
  from unfold dpt d(2) past visit show ?thesis by blast
qed

end
